theory Spec2Isabelle
  imports Complex_Main "HOL-Library.Word" "HOL-Library.List_Lexorder" "HOL-Library.Sublist"
begin

unbundle bit_operations_syntax

section \<open>JavaScript values\<close>

text \<open>
  A JavaScript string is a sequence of UTF-16 code units; the default \<^verbatim>\<open>sort()\<close> and
  \<^verbatim>\<open><\<close> on strings compare these sequences lexicographically, which is the order of
  \<^theory_text>\<open>List_Lexorder\<close> on lists of 16-bit words. \<open>ustr\<close> writes an ASCII literal.
\<close>

type_synonym byte = "8 word"
type_synonym jsstring = "16 word list"

definition ustr :: "string \<Rightarrow> jsstring" where
  "ustr s = map of_char s"

datatype js_error = TypeError | URIError

text \<open>
  The values \<^verbatim>\<open>JSON.parse\<close> and the socket layer deliver. \<open>JNum\<close> carries the numeric value
  of a number; the code below only copies numbers and tests them for truthiness.
\<close>

datatype jsval =
    JUndefined
  | JNull
  | JBool bool
  | JNum real
  | JNaN
  | JStr jsstring
  | JArr "jsval list"
  | JObj "(jsstring \<times> jsval) list"

fun truthy :: "jsval \<Rightarrow> bool" where
  "truthy JUndefined = False"
| "truthy JNull = False"
| "truthy (JBool b) = b"
| "truthy (JNum r) = (r \<noteq> 0)"
| "truthy JNaN = False"
| "truthy (JStr s) = (s \<noteq> [])"
| "truthy (JArr xs) = True"
| "truthy (JObj kvs) = True"

definition nullish :: "jsval \<Rightarrow> bool" where
  "nullish v = (v = JUndefined \<or> v = JNull)"

text \<open>\<^verbatim>\<open>a || b\<close> and \<^verbatim>\<open>a ?? b\<close>.\<close>

definition js_or :: "jsval \<Rightarrow> jsval \<Rightarrow> jsval" where
  "js_or a b = (if truthy a then a else b)"

definition js_coalesce :: "jsval \<Rightarrow> jsval \<Rightarrow> jsval" where
  "js_coalesce a b = (if nullish a then b else a)"

text \<open>
  \<^verbatim>\<open>v.name\<close> for a value that is neither null nor undefined and a name that no built-in
  prototype defines (the names read below are Transcript, Results, Alternatives, IsPartial,
  StartTime and EndTime): an own property of an object, undefined on everything else.
\<close>

fun get_prop :: "jsval \<Rightarrow> jsstring \<Rightarrow> jsval" where
  "get_prop (JObj kvs) name = (case map_of kvs name of Some v \<Rightarrow> v | None \<Rightarrow> JUndefined)"
| "get_prop v name = JUndefined"

text \<open>\<^verbatim>\<open>v?.name\<close> is undefined on null and undefined, where \<^verbatim>\<open>v.name\<close> raises a TypeError.\<close>

definition opt_member :: "jsval \<Rightarrow> jsstring \<Rightarrow> jsval" where
  "opt_member v name = (if nullish v then JUndefined else get_prop v name)"

text \<open>\<^verbatim>\<open>v[0]\<close> for a value that is neither null nor undefined.\<close>

fun index0 :: "jsval \<Rightarrow> jsval" where
  "index0 (JArr []) = JUndefined"
| "index0 (JArr (x # xs)) = x"
| "index0 (JStr []) = JUndefined"
| "index0 (JStr (c # cs)) = JStr [c]"
| "index0 (JObj kvs) = get_prop (JObj kvs) (ustr ''0'')"
| "index0 v = JUndefined"

text \<open>
  \<^verbatim>\<open>for (const r of v)\<close>: an array yields its elements, a string its code points (a surrogate
  pair is one element), anything else is not iterable.
\<close>

definition is_high_surrogate :: "16 word \<Rightarrow> bool" where
  "is_high_surrogate c = (0xD800 \<le> c \<and> c \<le> 0xDBFF)"

definition is_low_surrogate :: "16 word \<Rightarrow> bool" where
  "is_low_surrogate c = (0xDC00 \<le> c \<and> c \<le> 0xDFFF)"

fun code_points :: "jsstring \<Rightarrow> jsstring list" where
  "code_points [] = []"
| "code_points [c] = [[c]]"
| "code_points (c # d # cs) =
     (if is_high_surrogate c \<and> is_low_surrogate d then [c, d] # code_points cs
      else [c] # code_points (d # cs))"

fun iterate :: "jsval \<Rightarrow> js_error + jsval list" where
  "iterate (JArr xs) = Inr xs"
| "iterate (JStr s) = Inr (map JStr (code_points s))"
| "iterate v = Inl TypeError"

section \<open>Transcript extraction\<close>

record segment =
  seg_text :: jsval
  isPartial :: bool
  startTime :: jsval
  endTime :: jsval

text \<open>
  \<^verbatim>\<open>JSON.parse\<close> and \<^verbatim>\<open>Buffer.toString("utf8")\<close> belong to the platform and the event-stream
  marshaller to a library; the code is modelled over any such functions. A function that
  can raise returns \<open>None\<close> when it does.
\<close>

text \<open>
  A header's \<^verbatim>\<open>value\<close>: a string, or a value of another header type (boolean, number,
  binary, timestamp), of which the code uses only whether it is truthy and how a template
  literal prints it.
\<close>

datatype hvalue = VString jsstring | VOther bool jsstring

record message =
  headers :: "(jsstring \<times> hvalue) list"
  body :: "byte list"

record platform =
  marshall :: "message \<Rightarrow> byte list option"
  unmarshall :: "byte list \<Rightarrow> message option"
  toString_utf8 :: "byte list \<Rightarrow> jsstring"
  JSON_parse :: "jsstring \<Rightarrow> jsval option"

definition parseJsonBody :: "platform \<Rightarrow> byte list \<Rightarrow> jsval" where
  "parseJsonBody P bodyBytes =
     (case JSON_parse P (toString_utf8 P bodyBytes) of
        Some v \<Rightarrow> v
      | None \<Rightarrow> JNull)"

text \<open>\<^verbatim>\<open>r.Alternatives && r.Alternatives[0] ? r.Alternatives[0] : null\<close>, for \<open>r\<close> not nullish.\<close>

definition first_alternative :: "jsval \<Rightarrow> jsval" where
  "first_alternative r =
     (let alts = get_prop r (ustr ''Alternatives'')
      in if truthy alts \<and> truthy (index0 alts) then index0 alts else JNull)"

text \<open>\<^verbatim>\<open>alt?.Transcript || ""\<close>.\<close>

definition alternative_text :: "jsval \<Rightarrow> jsval" where
  "alternative_text alt = js_or (opt_member alt (ustr ''Transcript'')) (JStr [])"

definition make_segment :: "jsval \<Rightarrow> jsval \<Rightarrow> segment" where
  "make_segment r txt =
     \<lparr>seg_text = txt,
      isPartial = truthy (get_prop r (ustr ''IsPartial'')),
      startTime = js_coalesce (get_prop r (ustr ''StartTime'')) JNull,
      endTime = js_coalesce (get_prop r (ustr ''EndTime'')) JNull\<rparr>"

text \<open>The loop over the results, with the array \<open>out\<close> it fills.\<close>

fun extract_loop :: "jsval list \<Rightarrow> segment list \<Rightarrow> js_error + segment list" where
  "extract_loop [] out = Inr out"
| "extract_loop (r # rs) out =
     (if nullish r then Inl TypeError
      else
        let alt = first_alternative r;
            txt = alternative_text alt
        in if \<not> truthy txt then extract_loop rs out
           else extract_loop rs (out @ [make_segment r txt]))"

definition extractTranscriptParts :: "jsval \<Rightarrow> js_error + segment list" where
  "extractTranscriptParts json =
     (let results = js_or (opt_member (opt_member json (ustr ''Transcript'')) (ustr ''Results''))
                          (JArr [])
      in case iterate results of
           Inl e \<Rightarrow> Inl e
         | Inr rs \<Rightarrow> extract_loop rs [])"

section \<open>The session\<close>

datatype readyState = CONNECTING | OPEN | CLOSING | CLOSED

type_synonym conn = nat

text \<open>The two variables of a client connection's closure.\<close>

record session =
  ws :: "conn option"
  started :: bool

definition idle :: session where
  "idle = \<lparr>ws = None, started = False\<rparr>"

text \<open>
  What a client event carries: null, or a value with fields. The latter is an object,
  \<^verbatim>\<open>{}\<close> when the client sent nothing (the parameter's default replaces undefined, not
  null), or a primitive, whose fields are all undefined. A field that is missing is
  undefined.
\<close>

datatype 'a arg = Arg_null | Arg 'a

record start_msg =
  languageCode :: jsval
  sampleRateHertz :: jsval

datatype status =
    Status_starting jsval jsval
  | Status_streaming
  | Status_stopping
  | Status_ended nat jsstring

text \<open>
  What a handler does to the outside: events to the client, calls on the upstream, and an
  error raised outside every \<^verbatim>\<open>try\<close> block, with which the handler's promise rejects.
\<close>

datatype effect =
    Emit_status status
  | Emit_transcript segment
  | Emit_error jsstring
  | Call_buildTranscribePresignedUrl jsval jsval jsstring
  | Ws_send conn "byte list"
  | Ws_close conn nat jsstring
  | Unhandled_rejection js_error

text \<open>
  The start handler up to its \<^verbatim>\<open>await\<close>: the guard, the flag, the defaults, the status event
  and the call that starts signing. The fields are read after the flag is set and before
  the \<^verbatim>\<open>try\<close> block: on a null message the read raises a TypeError there, and the flag
  stays set.
\<close>

definition on_start :: "start_msg arg \<Rightarrow> session \<Rightarrow> session \<times> effect list" where
  "on_start a s =
     (if started s then (s, [])
      else
        (case a of
           Arg_null \<Rightarrow> (s\<lparr>started := True\<rparr>, [Unhandled_rejection TypeError])
         | Arg msg \<Rightarrow>
             let lc = js_or (languageCode msg) (JStr (ustr ''en-US''));
                 sampleRate = js_or (sampleRateHertz msg) (JNum 16000);
                 mediaEncoding = ustr ''pcm''
             in (s\<lparr>started := True\<rparr>,
                 [Emit_status (Status_starting lc sampleRate),
                  Call_buildTranscribePresignedUrl lc sampleRate mediaEncoding])))"

text \<open>
  The rest of the start handler, run when the awaited URL settles: either the promise
  rejected or \<^verbatim>\<open>new WebSocket\<close> raised (with the message the catch block emits), or the
  connection object was created and its four handlers registered.
\<close>

datatype settled = Rejected jsstring | Connected conn

fun on_start_resume :: "settled \<Rightarrow> session \<Rightarrow> session \<times> effect list" where
  "on_start_resume (Connected c) s = (s\<lparr>ws := Some c\<rparr>, [])"
| "on_start_resume (Rejected e) s = (s\<lparr>started := False, ws := None\<rparr>, [Emit_error e])"

definition on_open :: "session \<Rightarrow> session \<times> effect list" where
  "on_open s = (s, [Emit_status Status_streaming])"

definition on_close :: "nat \<Rightarrow> jsstring \<Rightarrow> session \<Rightarrow> session \<times> effect list" where
  "on_close code reason s =
     (s\<lparr>started := False, ws := None\<rparr>, [Emit_status (Status_ended code reason)])"

definition on_error :: "jsstring \<Rightarrow> session \<Rightarrow> session \<times> effect list" where
  "on_error e s = (s\<lparr>started := False, ws := None\<rparr>, [Emit_error e])"

text \<open>
  The stop and disconnect handlers read \<^verbatim>\<open>ws.readyState\<close>; \<open>rs\<close> is the state of every
  connection at the moment the handler runs. \<^verbatim>\<open>ws.close\<close> only requests the close.
\<close>

definition on_stop :: "(conn \<Rightarrow> readyState) \<Rightarrow> session \<Rightarrow> session \<times> effect list" where
  "on_stop rs s =
     (s\<lparr>started := False, ws := None\<rparr>,
      (case ws s of
         Some c \<Rightarrow> if rs c = OPEN then [Ws_close c 1000 (ustr ''client stop'')] else []
       | None \<Rightarrow> [])
      @ [Emit_status Status_stopping])"

definition on_disconnect :: "(conn \<Rightarrow> readyState) \<Rightarrow> session \<Rightarrow> session \<times> effect list" where
  "on_disconnect rs s =
     (s,
      case ws s of
        Some c \<Rightarrow> if rs c = OPEN then [Ws_close c 1001 (ustr ''client disconnect'')] else []
      | None \<Rightarrow> [])"

section \<open>Audio\<close>

text \<open>
  \<^verbatim>\<open>Buffer.from(b64, "base64")\<close> on a string never raises. The decoder reads the low byte of
  each code unit; a byte outside the alphabet is skipped, \<^verbatim>\<open>-\<close> and \<^verbatim>\<open>_\<close> stand for \<^verbatim>\<open>+\<close> and
  \<^verbatim>\<open>/\<close>, and decoding stops at the first \<^verbatim>\<open>=\<close>. A trailing group of two or three characters
  gives one or two bytes.
\<close>

definition unbase64 :: "byte \<Rightarrow> nat option" where
  "unbase64 b =
     (if 0x41 \<le> b \<and> b \<le> 0x5A then Some (unat b - 0x41)
      else if 0x61 \<le> b \<and> b \<le> 0x7A then Some (unat b - 0x61 + 26)
      else if 0x30 \<le> b \<and> b \<le> 0x39 then Some (unat b - 0x30 + 52)
      else if b = 0x2B \<or> b = 0x2D then Some 62
      else if b = 0x2F \<or> b = 0x5F then Some 63
      else None)"

fun sextets :: "jsstring \<Rightarrow> nat list" where
  "sextets [] = []"
| "sextets (c # cs) =
     (let b = (ucast c :: byte)
      in if b = 0x3D then []
         else case unbase64 b of Some v \<Rightarrow> v # sextets cs | None \<Rightarrow> sextets cs)"

fun decode_groups :: "nat list \<Rightarrow> byte list" where
  "decode_groups (a # b # c # d # rest) =
     [of_nat (a * 4 + b div 16), of_nat ((b mod 16) * 16 + c div 4), of_nat ((c mod 4) * 64 + d)]
     @ decode_groups rest"
| "decode_groups [a, b, c] = [of_nat (a * 4 + b div 16), of_nat ((b mod 16) * 16 + c div 4)]"
| "decode_groups [a, b] = [of_nat (a * 4 + b div 16)]"
| "decode_groups rest = []"

definition base64_decode :: "jsstring \<Rightarrow> byte list" where
  "base64_decode s = decode_groups (sextets s)"

text \<open>
  For the statement of what a valid chunk is: the base64 encoding of a byte sequence
  (standard alphabet, padded with \<^verbatim>\<open>=\<close> to a multiple of four characters).
\<close>

definition base64_char :: "nat \<Rightarrow> 16 word" where
  "base64_char n =
     (if n < 26 then of_nat (0x41 + n)
      else if n < 52 then of_nat (0x61 + (n - 26))
      else if n < 62 then of_nat (0x30 + (n - 52))
      else if n = 62 then 0x2B
      else 0x2F)"

fun base64_encode :: "byte list \<Rightarrow> jsstring" where
  "base64_encode [] = []"
| "base64_encode [x] =
     [base64_char (unat x div 4), base64_char (unat x mod 4 * 16), 0x3D, 0x3D]"
| "base64_encode [x, y] =
     [base64_char (unat x div 4), base64_char (unat x mod 4 * 16 + unat y div 16),
      base64_char (unat y mod 16 * 4), 0x3D]"
| "base64_encode (x # y # z # rest) =
     [base64_char (unat x div 4), base64_char (unat x mod 4 * 16 + unat y div 16),
      base64_char (unat y mod 16 * 4 + unat z div 64), base64_char (unat z mod 64)]
     @ base64_encode rest"

text \<open>
  The field \<^verbatim>\<open>msg.chunkBase64\<close> of an audio message (the message itself is an object, \<^verbatim>\<open>{}\<close>
  when the client sent none): a falsy value that is not a string, a string, or a truthy
  value of another type together with what \<^verbatim>\<open>Buffer.from\<close> makes of it (\<open>None\<close> when it raises).
\<close>

datatype chunk = Chunk_falsy | Chunk_string jsstring | Chunk_other "byte list option"

record audio_msg =
  chunkBase64 :: chunk

definition audio_headers :: "(jsstring \<times> hvalue) list" where
  "audio_headers =
     [(ustr '':message-type'', VString (ustr ''event'')),
      (ustr '':event-type'', VString (ustr ''AudioEvent'')),
      (ustr '':content-type'', VString (ustr ''application/octet-stream''))]"

text \<open>The body of the \<^verbatim>\<open>try\<close> block, once the chunk's bytes are known (\<open>None\<close>: it raised).\<close>

definition send_audio :: "platform \<Rightarrow> conn \<Rightarrow> byte list option \<Rightarrow> effect list" where
  "send_audio P c audioBytes =
     (case audioBytes of
        None \<Rightarrow> [Emit_error (ustr ''Bad audio chunk'')]
      | Some bytes \<Rightarrow>
          (case marshall P \<lparr>headers = audio_headers, body = bytes\<rparr> of
             None \<Rightarrow> [Emit_error (ustr ''Bad audio chunk'')]
           | Some payload \<Rightarrow> [Ws_send c payload]))"

definition on_audio ::
  "platform \<Rightarrow> (conn \<Rightarrow> readyState) \<Rightarrow> audio_msg \<Rightarrow> session \<Rightarrow> session \<times> effect list" where
  "on_audio P rs msg s =
     (case ws s of
        None \<Rightarrow> (s, [])
      | Some c \<Rightarrow>
          if rs c \<noteq> OPEN then (s, [])
          else
            (case chunkBase64 msg of
               Chunk_falsy \<Rightarrow> (s, [])
             | Chunk_string b64 \<Rightarrow>
                 if b64 = [] then (s, []) else (s, send_audio P c (Some (base64_decode b64)))
             | Chunk_other audioBytes \<Rightarrow> (s, send_audio P c audioBytes)))"

section \<open>Upstream messages\<close>

text \<open>\<^verbatim>\<open>headers[name]?.value\<close>.\<close>

definition header_value :: "message \<Rightarrow> jsstring \<Rightarrow> hvalue option" where
  "header_value m name = map_of (headers m) name"

text \<open>\<^verbatim>\<open>${eventType || "Unknown"}\<close>.\<close>

fun event_label :: "hvalue option \<Rightarrow> jsstring" where
  "event_label None = ustr ''Unknown''"
| "event_label (Some (VString s)) = (if s = [] then ustr ''Unknown'' else s)"
| "event_label (Some (VOther t printed)) = (if t then printed else ustr ''Unknown'')"

definition on_message :: "platform \<Rightarrow> byte list \<Rightarrow> session \<Rightarrow> session \<times> effect list" where
  "on_message P data s =
     (case unmarshall P data of
        None \<Rightarrow> (s, [])
      | Some m \<Rightarrow>
          let messageType = header_value m (ustr '':message-type'');
              eventType = header_value m (ustr '':event-type'')
          in if messageType = Some (VString (ustr ''event''))
                \<and> eventType = Some (VString (ustr ''TranscriptEvent''))
             then (case extractTranscriptParts (parseJsonBody P (body m)) of
                     Inl e \<Rightarrow> (s, [])
                   | Inr parts \<Rightarrow> (s, map Emit_transcript parts))
             else if messageType = Some (VString (ustr ''exception''))
             then (s, [Emit_error (ustr ''Transcribe exception: '' @ event_label eventType
                                    @ ustr '' '' @ toString_utf8 P (body m))])
             else (s, []))"

section \<open>Runs of a session\<close>

text \<open>
  A session is driven by client commands and by the events of the connections it created,
  one at a time. Each event comes with the states of the connections as its handler
  reads them.
\<close>

datatype event =
    Start "start_msg arg"
  | Start_resume settled
  | Audio audio_msg
  | Stop
  | Disconnect
  | Upstream_open conn
  | Upstream_message conn "byte list"
  | Upstream_close conn nat jsstring
  | Upstream_error conn jsstring

fun step ::
  "platform \<Rightarrow> (conn \<Rightarrow> readyState) \<Rightarrow> event \<Rightarrow> session \<Rightarrow> session \<times> effect list" where
  "step P rs (Start a) s = on_start a s"
| "step P rs (Start_resume r) s = on_start_resume r s"
| "step P rs (Audio msg) s = on_audio P rs msg s"
| "step P rs Stop s = on_stop rs s"
| "step P rs Disconnect s = on_disconnect rs s"
| "step P rs (Upstream_open c) s = on_open s"
| "step P rs (Upstream_message c data) s = on_message P data s"
| "step P rs (Upstream_close c code reason) s = on_close code reason s"
| "step P rs (Upstream_error c e) s = on_error e s"

fun run ::
  "platform \<Rightarrow> ((conn \<Rightarrow> readyState) \<times> event) list \<Rightarrow> session \<Rightarrow> session \<times> effect list" where
  "run P [] s = (s, [])"
| "run P ((rs, e) # es) s =
     (let (s', out) = step P rs e s;
          (s'', out') = run P es s'
      in (s'', out @ out'))"

text \<open>The events whose handlers clear the \<open>started\<close> flag.\<close>

fun resets :: "event \<Rightarrow> bool" where
  "resets Stop = True"
| "resets (Start_resume (Rejected e)) = True"
| "resets (Upstream_close c code reason) = True"
| "resets (Upstream_error c e) = True"
| "resets e = False"

section \<open>The query string\<close>

text \<open>
  \<^verbatim>\<open>encodeURIComponent\<close> keeps the letters, the digits and \<^verbatim>\<open>- _ . ! ~ * ' ( )\<close>, and writes
  every other code point as the bytes of its UTF-8 encoding, each as \<^verbatim>\<open>%XX\<close> in upper-case
  hexadecimal. A surrogate that is not part of a pair raises a URIError.
\<close>

definition uri_unescaped :: "16 word \<Rightarrow> bool" where
  "uri_unescaped c =
     ((0x41 \<le> c \<and> c \<le> 0x5A) \<or> (0x61 \<le> c \<and> c \<le> 0x7A) \<or> (0x30 \<le> c \<and> c \<le> 0x39)
      \<or> c \<in> {0x2D, 0x5F, 0x2E, 0x21, 0x7E, 0x2A, 0x27, 0x28, 0x29})"

definition hex_digit :: "nat \<Rightarrow> 16 word" where
  "hex_digit n = (if n < 10 then of_nat (0x30 + n) else of_nat (0x41 + (n - 10)))"

definition percent_byte :: "byte \<Rightarrow> jsstring" where
  "percent_byte b = [0x25, hex_digit (unat b div 16), hex_digit (unat b mod 16)]"

definition utf8_encode :: "nat \<Rightarrow> byte list" where
  "utf8_encode cp =
     (if cp < 0x80 then [of_nat cp]
      else if cp < 0x800 then [of_nat (0xC0 + cp div 0x40), of_nat (0x80 + cp mod 0x40)]
      else if cp < 0x10000 then
        [of_nat (0xE0 + cp div 0x1000), of_nat (0x80 + cp div 0x40 mod 0x40),
         of_nat (0x80 + cp mod 0x40)]
      else
        [of_nat (0xF0 + cp div 0x40000), of_nat (0x80 + cp div 0x1000 mod 0x40),
         of_nat (0x80 + cp div 0x40 mod 0x40), of_nat (0x80 + cp mod 0x40)])"

definition escape_code_point :: "nat \<Rightarrow> jsstring" where
  "escape_code_point cp = concat (map percent_byte (utf8_encode cp))"

definition pair_code_point :: "16 word \<Rightarrow> 16 word \<Rightarrow> nat" where
  "pair_code_point hi lo = 0x10000 + (unat hi - 0xD800) * 0x400 + (unat lo - 0xDC00)"

definition prepend :: "jsstring \<Rightarrow> js_error + jsstring \<Rightarrow> js_error + jsstring" where
  "prepend p r = (case r of Inl e \<Rightarrow> Inl e | Inr t \<Rightarrow> Inr (p @ t))"

fun encodeURIComponent :: "jsstring \<Rightarrow> js_error + jsstring" where
  "encodeURIComponent [] = Inr []"
| "encodeURIComponent (c # cs) =
     (if uri_unescaped c then prepend [c] (encodeURIComponent cs)
      else if is_low_surrogate c then Inl URIError
      else if \<not> is_high_surrogate c then prepend (escape_code_point (unat c)) (encodeURIComponent cs)
      else (case cs of
              [] \<Rightarrow> Inl URIError
            | d # ds \<Rightarrow>
                if is_low_surrogate d
                then prepend (escape_code_point (pair_code_point c d)) (encodeURIComponent ds)
                else Inl URIError))"

text \<open>
  \<^verbatim>\<open>encodeRFC3986\<close>: the replace callback turns each of \<^verbatim>\<open>! ' ( ) *\<close> into \<^verbatim>\<open>%\<close> and its code in
  upper-case hexadecimal (\<^verbatim>\<open>toString(16).toUpperCase()\<close>).
\<close>

fun hex_string :: "nat \<Rightarrow> jsstring" where
  "hex_string n = (if n < 16 then [hex_digit n] else hex_string (n div 16) @ [hex_digit (n mod 16)])"

declare hex_string.simps [simp del]

definition rfc3986_escape :: "16 word \<Rightarrow> jsstring" where
  "rfc3986_escape c =
     (if c \<in> {0x21, 0x27, 0x28, 0x29, 0x2A} then 0x25 # hex_string (unat c) else [c])"

definition encodeRFC3986 :: "jsstring \<Rightarrow> js_error + jsstring" where
  "encodeRFC3986 str =
     (case encodeURIComponent str of
        Inl e \<Rightarrow> Inl e
      | Inr t \<Rightarrow> Inr (concat (map rfc3986_escape t)))"

text \<open>
  A query is an object from parameter names to a string, an array of strings, or null
  (undefined counts as null); the association list's first binding of a name is the
  property. \<open>push_all\<close> is the loop over the values of one key, \<open>build_pairs\<close> the loop over
  the sorted keys, both with the array \<open>pairs\<close> they fill.
\<close>

datatype qvalue = QNull | QString jsstring | QArray "jsstring list"

type_synonym query = "(jsstring \<times> qvalue) list"

definition pair_string :: "jsstring \<Rightarrow> jsstring \<Rightarrow> js_error + jsstring" where
  "pair_string k v =
     (case encodeRFC3986 k of
        Inl e \<Rightarrow> Inl e
      | Inr ek \<Rightarrow> (case encodeRFC3986 v of Inl e \<Rightarrow> Inl e | Inr ev \<Rightarrow> Inr (ek @ ustr ''='' @ ev)))"

fun push_all :: "jsstring \<Rightarrow> jsstring list \<Rightarrow> jsstring list \<Rightarrow> js_error + jsstring list" where
  "push_all k [] pairs = Inr pairs"
| "push_all k (vv # vals) pairs =
     (case pair_string k vv of Inl e \<Rightarrow> Inl e | Inr p \<Rightarrow> push_all k vals (pairs @ [p]))"

fun build_pairs :: "query \<Rightarrow> jsstring list \<Rightarrow> jsstring list \<Rightarrow> js_error + jsstring list" where
  "build_pairs query [] pairs = Inr pairs"
| "build_pairs query (k # keys) pairs =
     (case map_of query k of
        None \<Rightarrow> build_pairs query keys pairs
      | Some QNull \<Rightarrow> build_pairs query keys pairs
      | Some (QArray v) \<Rightarrow>
          (case push_all k (sort v) pairs of
             Inl e \<Rightarrow> Inl e
           | Inr pairs' \<Rightarrow> build_pairs query keys pairs')
      | Some (QString v) \<Rightarrow>
          (case push_all k [v] pairs of
             Inl e \<Rightarrow> Inl e
           | Inr pairs' \<Rightarrow> build_pairs query keys pairs'))"

fun join :: "jsstring \<Rightarrow> jsstring list \<Rightarrow> jsstring" where
  "join sep [] = []"
| "join sep [x] = x"
| "join sep (x # y # ys) = x @ sep @ join sep (y # ys)"

definition buildQueryString :: "query option \<Rightarrow> js_error + jsstring" where
  "buildQueryString query =
     (let q = (case query of None \<Rightarrow> [] | Some q \<Rightarrow> q);
          keys = sort (remdups (map fst q))
      in case build_pairs q keys [] of
           Inl e \<Rightarrow> Inl e
         | Inr pairs \<Rightarrow> Inr (join (ustr ''&'') pairs))"

text \<open>
  For the statement of the builder's order: the (key, value) pairs the loops visit, before
  any encoding; the encoding of a list of such pairs; and the strings that
  \<^verbatim>\<open>encodeURIComponent\<close> accepts (every surrogate is part of a pair).
\<close>

fun values_of :: "qvalue option \<Rightarrow> jsstring list" where
  "values_of None = []"
| "values_of (Some QNull) = []"
| "values_of (Some (QString v)) = [v]"
| "values_of (Some (QArray v)) = sort v"

definition raw_pairs :: "query \<Rightarrow> (jsstring \<times> jsstring) list" where
  "raw_pairs q =
     concat (map (\<lambda>k. map (Pair k) (values_of (map_of q k))) (sort (remdups (map fst q))))"

fun encode_pairs :: "(jsstring \<times> jsstring) list \<Rightarrow> js_error + jsstring list" where
  "encode_pairs [] = Inr []"
| "encode_pairs ((k, v) # kvs) =
     (case pair_string k v of
        Inl e \<Rightarrow> Inl e
      | Inr p \<Rightarrow> (case encode_pairs kvs of Inl e \<Rightarrow> Inl e | Inr ps \<Rightarrow> Inr (p # ps)))"

fun well_formed :: "jsstring \<Rightarrow> bool" where
  "well_formed [] = True"
| "well_formed (c # cs) =
     (if is_low_surrogate c then False
      else if \<not> is_high_surrogate c then well_formed cs
      else (case cs of [] \<Rightarrow> False | d # ds \<Rightarrow> is_low_surrogate d \<and> well_formed ds))"

definition pair_le :: "jsstring \<times> jsstring \<Rightarrow> jsstring \<times> jsstring \<Rightarrow> bool" where
  "pair_le p p' = (fst p < fst p' \<or> (fst p = fst p' \<and> snd p \<le> snd p'))"

section \<open>Live connections\<close>

text \<open>
  For the statements on ownership and release: the connections that are live, that is
  created and neither ended (a close or error event of the connection) nor asked to
  close. \<open>live_step\<close> follows one event and the calls its handler made, \<open>live_run\<close> a
  run.
\<close>

fun close_target :: "effect \<Rightarrow> conn option" where
  "close_target (Ws_close c code reason) = Some c"
| "close_target e = None"

definition asked_to_close :: "effect list \<Rightarrow> conn set" where
  "asked_to_close out = set (List.map_filter close_target out)"

fun live_step :: "event \<Rightarrow> effect list \<Rightarrow> conn set \<Rightarrow> conn set" where
  "live_step (Start_resume (Connected c)) out L = insert c L - asked_to_close out"
| "live_step (Upstream_close c code reason) out L = L - {c} - asked_to_close out"
| "live_step (Upstream_error c e) out L = L - {c} - asked_to_close out"
| "live_step e out L = L - asked_to_close out"

fun live_run ::
  "platform \<Rightarrow> ((conn \<Rightarrow> readyState) \<times> event) list \<Rightarrow> session \<Rightarrow> conn set \<Rightarrow> conn set" where
  "live_run P [] s L = L"
| "live_run P ((rs, e) # es) s L =
     live_run P es (fst (step P rs e s)) (live_step e (snd (step P rs e s)) L)"

text \<open>
  An event arrives in order when a stop finds the referenced connection open (or none), a
  start resumes, with a connection or a failure, while its flag is still set and no
  connection is referenced, and
  an upstream close or error is of the referenced connection (or none is referenced). A
  run is orderly when each of its events is.
\<close>

fun in_order :: "(conn \<Rightarrow> readyState) \<Rightarrow> event \<Rightarrow> session \<Rightarrow> bool" where
  "in_order rs Stop s = (case ws s of None \<Rightarrow> True | Some c \<Rightarrow> rs c = OPEN)"
| "in_order rs (Start_resume r) s = (started s \<and> ws s = None)"
| "in_order rs (Upstream_close c code reason) s = (ws s = None \<or> ws s = Some c)"
| "in_order rs (Upstream_error c e) s = (ws s = None \<or> ws s = Some c)"
| "in_order rs e s = True"

fun orderly ::
  "platform \<Rightarrow> ((conn \<Rightarrow> readyState) \<times> event) list \<Rightarrow> session \<Rightarrow> bool" where
  "orderly P [] s = True"
| "orderly P ((rs, e) # es) s = (in_order rs e s \<and> orderly P es (fst (step P rs e s)))"

section \<open>The event-stream codec\<close>

text \<open>
  The codec is the library class \<^verbatim>\<open>EventStreamMarshaller\<close>, created with the two UTF-8
  conversions; its code is not part of the repository's sources. The definitions of this
  section are modelled from the specification, section 4.2: a frame is a total-length
  prefix, a headers-length prefix, a prelude checksum, the header block (for each header
  a name length, the name, a type tag and the typed value), the payload and a trailing
  message checksum. The specification names the fields and their order; the widths are
  those of the event-stream wire format (lengths and checksums of four bytes, a name
  length of one byte, a string value as type tag 7 and a length of two bytes, all
  big-endian, lengths written modulo their width). The checksum function and the UTF-8
  conversions are parameters. Only string-typed values are modelled.
\<close>

text \<open>Modelled from the spec: a length prefix, \<open>n\<close> bytes big-endian, the value modulo \<open>256 ^ n\<close>.\<close>

fun be :: "nat \<Rightarrow> nat \<Rightarrow> byte list" where
  "be 0 v = []"
| "be (Suc n) v = of_nat (v div 256 ^ n) # be n v"

text \<open>Modelled from the spec: reading a big-endian length prefix.\<close>

definition be_nat :: "byte list \<Rightarrow> nat" where
  "be_nat bs = foldl (\<lambda>a b. a * 256 + unat b) 0 bs"

text \<open>
  Modelled from the spec: one header of the header block: name length, name, type tag
  (string), typed value (its length and its bytes).
\<close>

definition encode_header :: "(jsstring \<Rightarrow> byte list) \<Rightarrow> jsstring \<times> jsstring \<Rightarrow> byte list" where
  "encode_header fromUtf8 h =
     (let name = fromUtf8 (fst h); v = fromUtf8 (snd h)
      in be 1 (length name) @ name @ [7] @ be 2 (length v) @ v)"

text \<open>Modelled from the spec: the header block, the headers one after the other.\<close>

definition encode_headers :: "(jsstring \<Rightarrow> byte list) \<Rightarrow> (jsstring \<times> jsstring) list \<Rightarrow> byte list" where
  "encode_headers fromUtf8 hs = concat (map (encode_header fromUtf8) hs)"

text \<open>
  Modelled from the spec: the frame around a header block and a payload: total length,
  headers length, prelude checksum, header block, payload, message checksum.
\<close>

definition build_frame :: "(byte list \<Rightarrow> 32 word) \<Rightarrow> byte list \<Rightarrow> byte list \<Rightarrow> byte list" where
  "build_frame crc block payload =
     (let prelude = be 4 (16 + length block + length payload) @ be 4 (length block);
          msg = prelude @ be 4 (unat (crc prelude)) @ block @ payload
      in msg @ be 4 (unat (crc msg)))"

text \<open>Modelled from the spec: \<^verbatim>\<open>encode(headers, payload)\<close>.\<close>

definition encode_frame ::
  "(byte list \<Rightarrow> 32 word) \<Rightarrow> (jsstring \<Rightarrow> byte list) \<Rightarrow> (jsstring \<times> jsstring) list \<Rightarrow> byte list
   \<Rightarrow> byte list" where
  "encode_frame crc fromUtf8 hs payload = build_frame crc (encode_headers fromUtf8 hs) payload"

text \<open>
  Modelled from the spec: reading a header block; any header name is accepted, a
  truncated header or a type tag other than string fails (\<open>None\<close>, the DecodeError).
\<close>

function parse_headers :: "(byte list \<Rightarrow> jsstring) \<Rightarrow> byte list \<Rightarrow> (jsstring \<times> jsstring) list option" where
  "parse_headers toUtf8 bs =
     (if bs = [] then Some []
      else
        let n = be_nat (take 1 bs);
            after_name = drop (1 + n) bs
        in if length bs < 1 + n + 3 then None
           else if take 1 after_name \<noteq> [7] then None
           else
             let l = be_nat (take 2 (drop 1 after_name));
                 after_value = drop (3 + l) after_name
             in if length after_name < 3 + l then None
                else (case parse_headers toUtf8 after_value of
                        None \<Rightarrow> None
                      | Some hs \<Rightarrow>
                          Some ((toUtf8 (take n (drop 1 bs)), toUtf8 (take l (drop 3 after_name))) # hs)))"
  by pat_completeness auto
termination
  by (relation "measure (\<lambda>(toUtf8, bs). length bs)") auto

text \<open>
  Modelled from the spec: \<^verbatim>\<open>decode(frame bytes)\<close>, failing on a frame that is too short, on a
  total length that is not the frame's, on a wrong checksum and on a malformed header
  block.
\<close>

definition decode_frame ::
  "(byte list \<Rightarrow> 32 word) \<Rightarrow> (byte list \<Rightarrow> jsstring) \<Rightarrow> byte list
   \<Rightarrow> ((jsstring \<times> jsstring) list \<times> byte list) option" where
  "decode_frame crc toUtf8 bytes =
     (if length bytes < 16 then None
      else if be_nat (take 4 bytes) \<noteq> length bytes then None
      else if be_nat (take 4 (drop 8 bytes)) \<noteq> unat (crc (take 8 bytes)) then None
      else if be_nat (drop (length bytes - 4) bytes) \<noteq> unat (crc (take (length bytes - 4) bytes))
      then None
      else
        let n = be_nat (take 4 (drop 4 bytes))
        in if length bytes < 16 + n then None
           else (case parse_headers toUtf8 (take n (drop 12 bytes)) of
                   None \<Rightarrow> None
                 | Some hs \<Rightarrow> Some (hs, take (length bytes - 16 - n) (drop (12 + n) bytes))))"

section \<open>Properties of the session\<close>

subsection \<open>Auxiliary facts\<close>

lemma session_reset: "(s::session)\<lparr>started := False, ws := None\<rparr> = idle"
  by (cases s) (simp add: idle_def)

lemma started_on_start: "started (fst (on_start a s))"
  by (cases a) (simp_all add: on_start_def Let_def)

lemma started_step:
  "started s \<Longrightarrow> \<not> resets e \<Longrightarrow> started (fst (step P rs e s))"
  using started_on_start
  by (cases e rule: resets.cases)
     (auto simp: on_audio_def on_disconnect_def on_open_def on_message_def Let_def
           split: option.splits chunk.splits sum.splits settled.splits)

lemma started_run:
  "started s \<Longrightarrow> \<forall>(rs, e) \<in> set es. \<not> resets e \<Longrightarrow> started (fst (run P es s))"
proof (induction es arbitrary: s)
  case Nil
  then show ?case by simp
next
  case (Cons a es)
  obtain rs e where a: "a = (rs, e)" by (cases a)
  from Cons.prems a have "started (fst (step P rs e s))"
    by (auto intro: started_step)
  moreover from Cons.prems have "\<forall>(rs, e) \<in> set es. \<not> resets e" by simp
  ultimately have "started (fst (run P es (fst (step P rs e s))))"
    by (rule Cons.IH)
  then show ?case using a by (simp add: case_prod_unfold Let_def)
qed

subsection \<open>Start\<close>

text \<open>
  C4. A start message without fields uses the language code "en-US" and the sample rate
  16000. A start received while the \<open>started\<close> flag is set is a silent no-op, whatever it
  carries: no status event, no signing call, the session unchanged. After a start, the
  flag stays set over any sequence of events without a stop, an upstream close or error,
  or a failed start, so that a second start issued then does nothing.
\<close>

theorem start_defaults_and_second_start_noop:
  "(\<not> started s \<longrightarrow>
      on_start (Arg \<lparr>languageCode = JUndefined, sampleRateHertz = JUndefined\<rparr>) s
        = (s\<lparr>started := True\<rparr>,
           [Emit_status (Status_starting (JStr (ustr ''en-US'')) (JNum 16000)),
            Call_buildTranscribePresignedUrl (JStr (ustr ''en-US'')) (JNum 16000) (ustr ''pcm'')]))
   \<and> (started s \<longrightarrow> on_start a s = (s, []))
   \<and> ((\<forall>(rs, e) \<in> set es. \<not> resets e) \<longrightarrow>
        (let s' = fst (run P es (fst (on_start a1 s)))
         in started s' \<and> step P rs' (Start a2) s' = (s', [])))"
proof (intro conjI impI)
  assume "\<not> started s"
  then show "on_start (Arg \<lparr>languageCode = JUndefined, sampleRateHertz = JUndefined\<rparr>) s
        = (s\<lparr>started := True\<rparr>,
           [Emit_status (Status_starting (JStr (ustr ''en-US'')) (JNum 16000)),
            Call_buildTranscribePresignedUrl (JStr (ustr ''en-US'')) (JNum 16000) (ustr ''pcm'')])"
    by (simp add: on_start_def js_or_def Let_def)
next
  assume "started s"
  then show "on_start a s = (s, [])" by (simp add: on_start_def)
next
  assume "\<forall>(rs, e) \<in> set es. \<not> resets e"
  then have "started (fst (run P es (fst (on_start a1 s))))"
    using started_on_start by (rule started_run [rotated])
  then show "let s' = fst (run P es (fst (on_start a1 s)))
         in started s' \<and> step P rs' (Start a2) s' = (s', [])"
    by (simp add: on_start_def Let_def)
qed

theorem start_defaults_and_second_start_noop_witness:
  "(let P = \<lparr>marshall = (\<lambda>m. Some (body m)), unmarshall = (\<lambda>d. None),
               toString_utf8 = map ucast, JSON_parse = (\<lambda>t. None)\<rparr>;
        es = [(\<lambda>c. CONNECTING, Start_resume (Connected 0)),
              (\<lambda>c. OPEN, Upstream_open 0),
              (\<lambda>c. OPEN, Audio \<lparr>chunkBase64 = Chunk_string (ustr ''AAAA'')\<rparr>)];
        a = Arg \<lparr>languageCode = JUndefined, sampleRateHertz = JUndefined\<rparr>
    in \<not> started idle
       \<and> (\<forall>(rs, e) \<in> set es. \<not> resets e) = True
       \<and> on_start a idle
           = (\<lparr>ws = None, started = True\<rparr>,
              [Emit_status (Status_starting (JStr (ustr ''en-US'')) (JNum 16000)),
               Call_buildTranscribePresignedUrl (JStr (ustr ''en-US'')) (JNum 16000) (ustr ''pcm'')])
       \<and> on_start a \<lparr>ws = None, started = True\<rparr> = (\<lparr>ws = None, started = True\<rparr>, [])
       \<and> fst (run P es (fst (on_start a idle))) = \<lparr>ws = Some 0, started = True\<rparr>
       \<and> step P (\<lambda>c. OPEN) (Start a) (fst (run P es (fst (on_start a idle))))
           = (\<lparr>ws = Some 0, started = True\<rparr>, []))"
  using start_defaults_and_second_start_noop
    [of idle "Arg \<lparr>languageCode = JUndefined, sampleRateHertz = JUndefined\<rparr>"
        "[(\<lambda>c. CONNECTING, Start_resume (Connected 0)),
          (\<lambda>c. OPEN, Upstream_open 0),
          (\<lambda>c. OPEN, Audio \<lparr>chunkBase64 = Chunk_string (ustr ''AAAA'')\<rparr>)]"
        "\<lparr>marshall = (\<lambda>m. Some (body m)), unmarshall = (\<lambda>d. None),
          toString_utf8 = map ucast, JSON_parse = (\<lambda>t. None)\<rparr>"
        "Arg \<lparr>languageCode = JUndefined, sampleRateHertz = JUndefined\<rparr>"
        "\<lambda>c. OPEN"
        "Arg \<lparr>languageCode = JUndefined, sampleRateHertz = JUndefined\<rparr>"]
    start_defaults_and_second_start_noop
    [of "\<lparr>ws = None, started = True\<rparr>"
        "Arg \<lparr>languageCode = JUndefined, sampleRateHertz = JUndefined\<rparr>" "[]"]
  by (simp add: idle_def Let_def on_start_def on_start_resume.simps on_open_def on_audio_def
        send_audio_def js_or_def ustr_def)

subsection \<open>Base64\<close>

text \<open>
  The decoder inverts the encoding: every byte sequence comes back from its base64
  encoding. The examples are the test vectors of RFC 4648 and strings on which the
  decoder is lenient.
\<close>

lemma digits:
  fixes m n q :: nat
  assumes "q < n"
  shows "(m * n + q) div n = m" and "(m * n + q) mod n = q"
  using assms by simp_all

lemma group_arith:
  fixes X Y Z :: nat
  assumes "X < 256" "Y < 256" "Z < 256"
  shows "X div 4 * 4 + (X mod 4 * 16 + Y div 16) div 16 = X"
    and "(X mod 4 * 16 + Y div 16) mod 16 * 16 + (Y mod 16 * 4 + Z div 64) div 4 = Y"
    and "(Y mod 16 * 4 + Z div 64) mod 4 * 64 + Z mod 64 = Z"
    and "X div 4 * 4 + (X mod 4 * 16) div 16 = X"
    and "(X mod 4 * 16 + Y div 16) mod 16 * 16 + (Y mod 16 * 4) div 4 = Y"
proof -
  have q: "Y div 16 < 16" and t: "Z div 64 < 4"
    using assms by (simp_all add: less_mult_imp_div_less)
  show "X div 4 * 4 + (X mod 4 * 16 + Y div 16) div 16 = X"
    using digits(1) [OF q, of "X mod 4"] by simp
  show "(X mod 4 * 16 + Y div 16) mod 16 * 16 + (Y mod 16 * 4 + Z div 64) div 4 = Y"
    using digits(2) [OF q, of "X mod 4"] digits(1) [OF t, of "Y mod 16"] by simp
  show "(Y mod 16 * 4 + Z div 64) mod 4 * 64 + Z mod 64 = Z"
    using digits(2) [OF t, of "Y mod 16"] by simp
  show "X div 4 * 4 + (X mod 4 * 16) div 16 = X"
    by simp
  show "(X mod 4 * 16 + Y div 16) mod 16 * 16 + (Y mod 16 * 4) div 4 = Y"
    using digits(2) [OF q, of "X mod 4"] by simp
qed

lemma sextet_bounds:
  fixes X Y Z :: nat
  assumes "X < 256" "Y < 256" "Z < 256"
  shows "X div 4 < 64" "X mod 4 * 16 + Y div 16 < 64" "Y mod 16 * 4 + Z div 64 < 64" "Z mod 64 < 64"
    "X mod 4 * 16 < 64" "Y mod 16 * 4 < 64"
proof -
  have q: "Y div 16 < 16" and t: "Z div 64 < 4" and x: "X div 4 < 64"
    using assms by (simp_all add: less_mult_imp_div_less)
  have a: "X mod 4 < 4" and b: "Y mod 16 < 16" by simp_all
  show "X div 4 < 64" by (rule x)
  show "X mod 4 * 16 + Y div 16 < 64" using q a by linarith
  show "Y mod 16 * 4 + Z div 64 < 64" using t b by linarith
  show "Z mod 64 < 64" by simp
  show "X mod 4 * 16 < 64" using a by linarith
  show "Y mod 16 * 4 < 64" using b by linarith
qed


lemma base64_char_table:
  "\<forall>n \<in> set [0..<64]. unbase64 (ucast (base64_char n)) = Some n
       \<and> (ucast (base64_char n) :: byte) \<noteq> 0x3D"
  by code_simp

lemma unbase64_char:
  assumes "n < 64"
  shows "unbase64 (ucast (base64_char n)) = Some n" and "(ucast (base64_char n) :: byte) \<noteq> 0x3D"
  using assms base64_char_table by auto


lemma sextets_char: "n < 64 \<Longrightarrow> sextets (base64_char n # cs) = n # sextets cs"
  by (simp add: unbase64_char Let_def)

lemma sextets_pad: "sextets (0x3D # cs) = []"
  by simp

declare sextets.simps [simp del]

lemma byte_bound: "unat (x :: byte) < 256"
  using unsigned_less [of x] by simp

lemma base64_decode_encode: "base64_decode (base64_encode bs) = bs"
  unfolding base64_decode_def
proof (induction bs rule: base64_encode.induct)
  case 1
  then show ?case by (simp add: sextets.simps)
next
  case (2 x)
  note b = byte_bound [of x]
  show ?case
    using sextet_bounds(1,5) [OF b b b] group_arith(4) [OF b b b]
    by (simp add: sextets_char sextets_pad)
next
  case (3 x y)
  note b = byte_bound [of x] and c = byte_bound [of y]
  show ?case
    using sextet_bounds(1,2,6) [OF b c c] group_arith(1,5) [OF b c c]
    by (simp add: sextets_char sextets_pad)
next
  case (4 x y z rest)
  note b = byte_bound [of x] and c = byte_bound [of y] and d = byte_bound [of z]
  show ?case
    using sextet_bounds(1,2,3,4) [OF b c d] group_arith(1,2,3) [OF b c d] 4
    by (simp add: sextets_char)
qed


lemma base64_encode_nonempty: "bs \<noteq> [] \<Longrightarrow> base64_encode bs \<noteq> []"
  by (cases bs rule: base64_encode.cases) simp_all

lemma base64_encode_examples:
  "base64_encode (map of_char ''f'') = ustr ''Zg==''"
  "base64_encode (map of_char ''fo'') = ustr ''Zm8=''"
  "base64_encode (map of_char ''foobar'') = ustr ''Zm9vYmFy''"
  "base64_encode [0, 0, 0] = ustr ''AAAA''"
  "base64_encode [0xFB, 0xFF] = ustr ''+/8=''"
  by (simp_all add: base64_char_def ustr_def)

lemma base64_decode_examples:
  "base64_decode (ustr ''SGVsbG8='') = map of_char ''Hello''"
  "base64_decode (ustr ''-_8'') = [0xFB, 0xFF]"
  "base64_decode [0x141, 0x141, 0x141, 0x141] = [0, 0, 0]"
  "base64_decode [0x13D, 0x41, 0x41, 0x41, 0x41] = []"
  "base64_decode (ustr ''A A.A!A'') = [0, 0, 0]"
  by (simp_all add: base64_decode_def unbase64_def ustr_def sextets.simps)

subsection \<open>Audio\<close>

text \<open>
  C5. An audio message whose chunk is valid base64, the encoding of a non-empty byte
  sequence, received while the session's connection is open, sends exactly one frame and
  nothing else: the marshaller's output for the three headers :message-type=event,
  :event-type=AudioEvent, :content-type=application/octet-stream and the encoded bytes as
  body. The chunk "AAAA" is the encoding of three zero bytes.
\<close>

theorem audio_sends_one_frame:
  "ws s = Some c \<Longrightarrow> rs c = OPEN \<Longrightarrow> audioBytes \<noteq> [] \<Longrightarrow>
   chunkBase64 msg = Chunk_string (base64_encode audioBytes) \<Longrightarrow>
   marshall P \<lparr>headers = [(ustr '':message-type'', VString (ustr ''event'')),
                          (ustr '':event-type'', VString (ustr ''AudioEvent'')),
                          (ustr '':content-type'', VString (ustr ''application/octet-stream''))],
               body = audioBytes\<rparr> = Some frame \<Longrightarrow>
   on_audio P rs msg s = (s, [Ws_send c frame])
   \<and> base64_encode [0, 0, 0] = ustr ''AAAA''"
  using base64_encode_nonempty [of audioBytes] base64_encode_examples(4)
  by (simp add: on_audio_def send_audio_def audio_headers_def base64_decode_encode)

theorem audio_sends_one_frame_witness:
  "(let P = \<lparr>marshall = (\<lambda>m. Some (body m)), unmarshall = (\<lambda>d. None),
               toString_utf8 = map ucast, JSON_parse = (\<lambda>t. None)\<rparr>
    in on_audio P (\<lambda>c. OPEN) \<lparr>chunkBase64 = Chunk_string (ustr ''AAAA'')\<rparr>
         \<lparr>ws = Some 0, started = True\<rparr>
       = (\<lparr>ws = Some 0, started = True\<rparr>, [Ws_send 0 [0, 0, 0]])
     \<and> on_audio P (\<lambda>c. OPEN) \<lparr>chunkBase64 = Chunk_string (ustr ''SGVsbG8='')\<rparr>
         \<lparr>ws = Some 0, started = True\<rparr>
       = (\<lparr>ws = Some 0, started = True\<rparr>, [Ws_send 0 [0x48, 0x65, 0x6C, 0x6C, 0x6F]]))"
  using audio_sends_one_frame
    [of "\<lparr>ws = Some 0, started = True\<rparr>" 0 "\<lambda>c. OPEN" "[0, 0, 0]"
        "\<lparr>chunkBase64 = Chunk_string (ustr ''AAAA'')\<rparr>"
        "\<lparr>marshall = (\<lambda>m. Some (body m)), unmarshall = (\<lambda>d. None),
          toString_utf8 = map ucast, JSON_parse = (\<lambda>t. None)\<rparr>" "[0, 0, 0]"]
    audio_sends_one_frame
    [of "\<lparr>ws = Some 0, started = True\<rparr>" 0 "\<lambda>c. OPEN" "[0x48, 0x65, 0x6C, 0x6C, 0x6F]"
        "\<lparr>chunkBase64 = Chunk_string (ustr ''SGVsbG8='')\<rparr>"
        "\<lparr>marshall = (\<lambda>m. Some (body m)), unmarshall = (\<lambda>d. None),
          toString_utf8 = map ucast, JSON_parse = (\<lambda>t. None)\<rparr>" "[0x48, 0x65, 0x6C, 0x6C, 0x6F]"]
  by (simp add: ustr_def base64_char_def)

text \<open>
  C9. An audio message is dropped silently (nothing sent, nothing emitted, the session
  unchanged) when the session has no connection, when its connection is not open, or when
  the chunk is missing or empty.
\<close>

theorem audio_dropped_silently:
  "ws s = None \<or> (\<exists>c. ws s = Some c \<and> rs c \<noteq> OPEN)
     \<or> chunkBase64 msg = Chunk_falsy \<or> chunkBase64 msg = Chunk_string [] \<Longrightarrow>
   on_audio P rs msg s = (s, [])"
  by (auto simp: on_audio_def split: option.splits chunk.splits)

theorem audio_dropped_silently_witness:
  "(let P = \<lparr>marshall = (\<lambda>m. Some (body m)), unmarshall = (\<lambda>d. None),
               toString_utf8 = map ucast, JSON_parse = (\<lambda>t. None)\<rparr>
    in on_audio P (\<lambda>c. OPEN) \<lparr>chunkBase64 = Chunk_string (ustr ''AAAA'')\<rparr> idle = (idle, [])
       \<and> on_audio P (\<lambda>c. CLOSING) \<lparr>chunkBase64 = Chunk_string (ustr ''AAAA'')\<rparr>
            \<lparr>ws = Some 0, started = True\<rparr> = (\<lparr>ws = Some 0, started = True\<rparr>, [])
       \<and> on_audio P (\<lambda>c. OPEN) \<lparr>chunkBase64 = Chunk_string []\<rparr>
            \<lparr>ws = Some 0, started = True\<rparr> = (\<lparr>ws = Some 0, started = True\<rparr>, []))"
  using audio_dropped_silently
    [of idle "\<lambda>c. OPEN" "\<lparr>chunkBase64 = Chunk_string (ustr ''AAAA'')\<rparr>"
        "\<lparr>marshall = (\<lambda>m. Some (body m)), unmarshall = (\<lambda>d. None),
          toString_utf8 = map ucast, JSON_parse = (\<lambda>t. None)\<rparr>"]
    audio_dropped_silently
    [of "\<lparr>ws = Some 0, started = True\<rparr>" "\<lambda>c. CLOSING"
        "\<lparr>chunkBase64 = Chunk_string (ustr ''AAAA'')\<rparr>"
        "\<lparr>marshall = (\<lambda>m. Some (body m)), unmarshall = (\<lambda>d. None),
          toString_utf8 = map ucast, JSON_parse = (\<lambda>t. None)\<rparr>"]
    audio_dropped_silently
    [of "\<lparr>ws = Some 0, started = True\<rparr>" "\<lambda>c. OPEN" "\<lparr>chunkBase64 = Chunk_string []\<rparr>"
        "\<lparr>marshall = (\<lambda>m. Some (body m)), unmarshall = (\<lambda>d. None),
          toString_utf8 = map ucast, JSON_parse = (\<lambda>t. None)\<rparr>"]
  by (simp add: idle_def)

subsection \<open>Stop\<close>

text \<open>
  C7. Stop on a session whose connection is open requests its close with code 1000 and
  reason "client stop", emits the status "stopping", and in the same step clears the
  \<open>started\<close> flag and drops the connection reference; the handler waits for no event of
  the connection.
\<close>

theorem stop_while_streaming:
  "ws s = Some c \<Longrightarrow> rs c = OPEN \<Longrightarrow>
     on_stop rs s = (\<lparr>ws = None, started = False\<rparr>,
                     [Ws_close c 1000 (ustr ''client stop''), Emit_status Status_stopping])"
  using session_reset [of s] by (simp add: on_stop_def idle_def)

theorem stop_while_streaming_witness:
  "on_stop (\<lambda>c. OPEN) \<lparr>ws = Some 0, started = True\<rparr>
     = (\<lparr>ws = None, started = False\<rparr>,
        [Ws_close 0 1000 (ustr ''client stop''), Emit_status Status_stopping])"
  using stop_while_streaming [of "\<lparr>ws = Some 0, started = True\<rparr>" 0 "\<lambda>c. OPEN"]
  by simp

text \<open>
  C10. Stop on an idle session (no connection, not started) is not silent: it emits the
  status "stopping", calls no close, and leaves the session idle.
\<close>

theorem stop_while_idle:
  "on_stop rs idle = (idle, [Emit_status Status_stopping])"
  by (simp add: on_stop_def idle_def)

subsection \<open>The flag and the connection reference\<close>

lemma asked_to_close_Nil [simp]: "asked_to_close [] = {}"
  by (simp add: asked_to_close_def)

lemma asked_to_close_Cons [simp]:
  "asked_to_close (x # out)
     = (case close_target x of None \<Rightarrow> {} | Some c \<Rightarrow> {c}) \<union> asked_to_close out"
  by (cases "close_target x") (simp_all add: asked_to_close_def)

lemma asked_to_close_append [simp]:
  "asked_to_close (out @ out') = asked_to_close out \<union> asked_to_close out'"
  by (induction out) auto

lemma asked_to_close_transcripts [simp]: "asked_to_close (map Emit_transcript parts) = {}"
  by (induction parts) simp_all

lemma asked_on_start [simp]: "asked_to_close (snd (on_start a s)) = {}"
  by (cases a) (simp_all add: on_start_def Let_def)

lemma asked_on_start_resume [simp]: "asked_to_close (snd (on_start_resume r s)) = {}"
  by (cases r) simp_all

lemma asked_on_audio [simp]: "asked_to_close (snd (on_audio P rs msg s)) = {}"
  by (simp add: on_audio_def send_audio_def split: option.splits chunk.splits)

lemma asked_on_message [simp]: "asked_to_close (snd (on_message P data s)) = {}"
  by (simp add: on_message_def Let_def split: option.splits sum.splits)









text \<open>
  Runs that are not orderly, on which the theorem above is silent. A stop that finds the
  connection still connecting calls no close and drops the reference, and a second start
  then creates a second connection: two connections are live and none was asked to
  close. A start with a null message sets the flag and raises before the \<^verbatim>\<open>try\<close> block, so
  that nothing clears the flag and every later start is a no-op. A stop that arrives
  while the start handler waits for its URL clears the flag, and the handler then stores
  the connection it creates. A disconnect that finds the connection still connecting
  calls no close.
\<close>

lemma stop_while_connecting:
  "(let es = [(\<lambda>c. CONNECTING, Start (Arg msg)),
              (\<lambda>c. CONNECTING, Start_resume (Connected 0)),
              (\<lambda>c. CONNECTING, Stop),
              (\<lambda>c. CONNECTING, Start (Arg msg)),
              (\<lambda>c. CONNECTING, Start_resume (Connected 1))]
    in fst (run P es idle) = \<lparr>ws = Some 1, started = True\<rparr>
       \<and> asked_to_close (snd (run P es idle)) = {}
       \<and> live_run P es idle {} = {0, 1}
       \<and> \<not> orderly P es idle)"
  by (simp add: idle_def Let_def on_start_def on_stop_def) auto

lemma start_null_keeps_flag:
  "on_start Arg_null idle = (\<lparr>ws = None, started = True\<rparr>, [Unhandled_rejection TypeError])"
  "on_start a \<lparr>ws = None, started = True\<rparr> = (\<lparr>ws = None, started = True\<rparr>, [])"
  by (simp_all add: on_start_def idle_def)

lemma stop_during_start:
  "(let es = [(rs, Start a), (rs, Stop), (rs, Start_resume (Connected c))]
    in fst (run P es idle) = \<lparr>ws = Some c, started = False\<rparr>
       \<and> \<not> orderly P es idle)"
  by (cases a) (simp_all add: idle_def on_start_def on_stop_def Let_def)

lemma connecting_at_disconnect:
  "on_disconnect (\<lambda>c. CONNECTING) \<lparr>ws = Some 0, started = True\<rparr>
     = (\<lparr>ws = Some 0, started = True\<rparr>, [])"
  by (simp add: on_disconnect_def)

subsection \<open>Upstream exceptions\<close>

text \<open>
  C8. An upstream frame whose :message-type is "exception" makes the session emit exactly
  one error event and leaves the session as it was. The message is "Transcribe
  exception: ", the event type ("Unknown" when the frame has none or an empty one), a
  space and the decoded body; it contains the decoded body and a string-typed event type.
  With event type "BadRequestException" and body "invalid sample rate" it contains both.
\<close>

theorem exception_frame_forwarded:
  "unmarshall P data = Some m \<Longrightarrow>
   header_value m (ustr '':message-type'') = Some (VString (ustr ''exception'')) \<Longrightarrow>
   (let msg = ustr ''Transcribe exception: '' @ event_label (header_value m (ustr '':event-type''))
                @ ustr '' '' @ toString_utf8 P (body m)
    in on_message P data s = (s, [Emit_error msg])
       \<and> sublist (toString_utf8 P (body m)) msg
       \<and> (\<forall>et. header_value m (ustr '':event-type'') = Some (VString et) \<longrightarrow> sublist et msg))"
proof -
  assume u: "unmarshall P data = Some m"
    and mt: "header_value m (ustr '':message-type'') = Some (VString (ustr ''exception''))"
  define msg where "msg = ustr ''Transcribe exception: ''
      @ event_label (header_value m (ustr '':event-type'')) @ ustr '' '' @ toString_utf8 P (body m)"
  have ne: "ustr ''exception'' \<noteq> ustr ''event''"
    by (simp add: ustr_def)
  have 1: "on_message P data s = (s, [Emit_error msg])"
    using u mt ne by (simp add: on_message_def Let_def msg_def)
  have 2: "sublist (toString_utf8 P (body m)) msg"
    unfolding msg_def sublist_def by (metis append.assoc append_Nil2)
  have 3: "sublist et msg" if "header_value m (ustr '':event-type'') = Some (VString et)" for et
  proof (cases "et = []")
    case True
    then show ?thesis by simp
  next
    case False
    with that have "msg = ustr ''Transcribe exception: '' @ et @ (ustr '' '' @ toString_utf8 P (body m))"
      by (simp add: msg_def)
    then show ?thesis by (metis sublist_appendI)
  qed
  from 1 2 3 show ?thesis
    unfolding Let_def msg_def by blast
qed

theorem exception_frame_forwarded_witness:
  "(let P = \<lparr>marshall = (\<lambda>m. None),
               unmarshall = (\<lambda>d. Some \<lparr>headers = [(ustr '':message-type'', VString (ustr ''exception'')),
                                                    (ustr '':event-type'', VString (ustr ''BadRequestException''))],
                                         body = d\<rparr>),
               toString_utf8 = map ucast,
               JSON_parse = (\<lambda>t. None)\<rparr>;
        data = map of_char ''invalid sample rate''
    in on_message P data idle
         = (idle, [Emit_error (ustr ''Transcribe exception: BadRequestException invalid sample rate'')])
       \<and> sublist (ustr ''BadRequestException'')
            (ustr ''Transcribe exception: BadRequestException invalid sample rate'')
       \<and> sublist (ustr ''invalid sample rate'')
            (ustr ''Transcribe exception: BadRequestException invalid sample rate''))"
  using exception_frame_forwarded
    [of "\<lparr>marshall = (\<lambda>m. None),
               unmarshall = (\<lambda>d. Some \<lparr>headers = [(ustr '':message-type'', VString (ustr ''exception'')),
                                                    (ustr '':event-type'', VString (ustr ''BadRequestException''))],
                                         body = d\<rparr>),
               toString_utf8 = map ucast,
               JSON_parse = (\<lambda>t. None)\<rparr>"
        "map of_char ''invalid sample rate''" _ idle]
  by (simp add: header_value_def ustr_def Let_def)

section \<open>Properties of the transcript extraction\<close>

lemma extract_loop_filter:
  "\<forall>r \<in> set rs. \<not> nullish r \<Longrightarrow>
   extract_loop rs out =
     Inr (out @ map (\<lambda>r. make_segment r (alternative_text (first_alternative r)))
                  (filter (\<lambda>r. truthy (alternative_text (first_alternative r))) rs))"
  by (induction rs arbitrary: out) (simp_all add: Let_def)

text \<open>
  C2, as the code has it. When the payload has no results list (or a falsy one) the
  extraction returns the empty sequence. When the results list is an array without a null
  entry, it returns one segment for each result whose first alternative has non-empty
  text, in the order of the results, and nothing else; \<open>isPartial\<close> is false and the
  times are null where the result lacks them. A body that does not parse gives the empty
  sequence.
\<close>

theorem extract_segments:
  "(\<not> truthy (opt_member (opt_member json (ustr ''Transcript'')) (ustr ''Results'')) \<longrightarrow>
      extractTranscriptParts json = Inr [])
   \<and> (opt_member (opt_member json (ustr ''Transcript'')) (ustr ''Results'') = JArr rs
        \<and> (\<forall>r \<in> set rs. \<not> nullish r) \<longrightarrow>
      extractTranscriptParts json =
        Inr (map (\<lambda>r. make_segment r (alternative_text (first_alternative r)))
               (filter (\<lambda>r. truthy (alternative_text (first_alternative r))) rs)))
   \<and> (map_of kvs (ustr ''IsPartial'') = None \<and> map_of kvs (ustr ''StartTime'') = None
        \<and> map_of kvs (ustr ''EndTime'') = None \<longrightarrow>
      make_segment (JObj kvs) txt
        = \<lparr>seg_text = txt, isPartial = False, startTime = JNull, endTime = JNull\<rparr>)
   \<and> (JSON_parse P (toString_utf8 P bodyBytes) = None \<longrightarrow>
      extractTranscriptParts (parseJsonBody P bodyBytes) = Inr [])"
proof (intro conjI impI)
  assume "\<not> truthy (opt_member (opt_member json (ustr ''Transcript'')) (ustr ''Results''))"
  then show "extractTranscriptParts json = Inr []"
    by (simp add: extractTranscriptParts_def js_or_def)
next
  assume a: "opt_member (opt_member json (ustr ''Transcript'')) (ustr ''Results'') = JArr rs
        \<and> (\<forall>r \<in> set rs. \<not> nullish r)"
  then show "extractTranscriptParts json =
        Inr (map (\<lambda>r. make_segment r (alternative_text (first_alternative r)))
               (filter (\<lambda>r. truthy (alternative_text (first_alternative r))) rs))"
    using extract_loop_filter [of rs "[]"]
    by (simp add: extractTranscriptParts_def js_or_def)
next
  assume "map_of kvs (ustr ''IsPartial'') = None \<and> map_of kvs (ustr ''StartTime'') = None
        \<and> map_of kvs (ustr ''EndTime'') = None"
  then show "make_segment (JObj kvs) txt
        = \<lparr>seg_text = txt, isPartial = False, startTime = JNull, endTime = JNull\<rparr>"
    by (simp add: make_segment_def js_coalesce_def nullish_def)
next
  assume "JSON_parse P (toString_utf8 P bodyBytes) = None"
  then show "extractTranscriptParts (parseJsonBody P bodyBytes) = Inr []"
    by (simp add: parseJsonBody_def extractTranscriptParts_def opt_member_def nullish_def js_or_def)
qed

theorem extract_segments_witness:
  "extractTranscriptParts
     (JObj [(ustr ''Transcript'', JObj [(ustr ''Results'',
        JArr [JObj [(ustr ''Alternatives'',
                      JArr [JObj [(ustr ''Transcript'', JStr (ustr ''hello''))],
                            JObj [(ustr ''Transcript'', JStr (ustr ''hullo''))]]),
                    (ustr ''IsPartial'', JBool True),
                    (ustr ''StartTime'', JNum 0.5)],
              JObj [(ustr ''Alternatives'', JArr [JObj [(ustr ''Transcript'', JStr [])]])],
              JObj [(ustr ''Alternatives'',
                      JArr [JObj [(ustr ''Transcript'', JStr (ustr ''world''))]])]])])])
     = Inr [\<lparr>seg_text = JStr (ustr ''hello''), isPartial = True,
               startTime = JNum 0.5, endTime = JNull\<rparr>,
            \<lparr>seg_text = JStr (ustr ''world''), isPartial = False,
               startTime = JNull, endTime = JNull\<rparr>]
   \<and> extractTranscriptParts (JObj [(ustr ''Transcript'', JObj [])]) = Inr []
   \<and> extractTranscriptParts
        (parseJsonBody \<lparr>marshall = (\<lambda>m. None), unmarshall = (\<lambda>d. None),
                         toString_utf8 = map ucast, JSON_parse = (\<lambda>t. None)\<rparr> [0x7B]) = Inr []"
  using extract_segments
    [of "JObj [(ustr ''Transcript'', JObj [(ustr ''Results'',
        JArr [JObj [(ustr ''Alternatives'',
                      JArr [JObj [(ustr ''Transcript'', JStr (ustr ''hello''))],
                            JObj [(ustr ''Transcript'', JStr (ustr ''hullo''))]]),
                    (ustr ''IsPartial'', JBool True),
                    (ustr ''StartTime'', JNum 0.5)],
              JObj [(ustr ''Alternatives'', JArr [JObj [(ustr ''Transcript'', JStr [])]])],
              JObj [(ustr ''Alternatives'',
                      JArr [JObj [(ustr ''Transcript'', JStr (ustr ''world''))]])]])])]"
        "[JObj [(ustr ''Alternatives'',
                      JArr [JObj [(ustr ''Transcript'', JStr (ustr ''hello''))],
                            JObj [(ustr ''Transcript'', JStr (ustr ''hullo''))]]),
                    (ustr ''IsPartial'', JBool True),
                    (ustr ''StartTime'', JNum 0.5)],
              JObj [(ustr ''Alternatives'', JArr [JObj [(ustr ''Transcript'', JStr [])]])],
              JObj [(ustr ''Alternatives'',
                      JArr [JObj [(ustr ''Transcript'', JStr (ustr ''world''))]])]]"
        "[]" JNull "\<lparr>marshall = (\<lambda>m. None), unmarshall = (\<lambda>d. None),
                         toString_utf8 = map ucast, JSON_parse = (\<lambda>t. None)\<rparr>" "[0x7B]"]
    extract_segments [of "JObj [(ustr ''Transcript'', JObj [])]"]
  by (simp add: opt_member_def nullish_def ustr_def first_alternative_def alternative_text_def
        make_segment_def js_or_def js_coalesce_def)

text \<open>
  C2 as stated fails: the extraction raises a TypeError when an entry of the results list
  is null, and when the results value is truthy but not iterable.
\<close>

theorem extract_raises_counterexample:
  "extractTranscriptParts
     (JObj [(ustr ''Transcript'', JObj [(ustr ''Results'', JArr [JNull])])]) = Inl TypeError
   \<and> extractTranscriptParts
     (JObj [(ustr ''Transcript'', JObj [(ustr ''Results'', JNum 5)])]) = Inl TypeError"
  by (simp add: extractTranscriptParts_def opt_member_def nullish_def js_or_def ustr_def)

text \<open>
  The message handler runs the extraction inside its \<^verbatim>\<open>try\<close> block: when the extraction
  raises on a transcript frame, the handler emits nothing and leaves the session as it
  was.
\<close>

lemma extraction_error_absorbed:
  "unmarshall P data = Some m \<Longrightarrow>
   header_value m (ustr '':message-type'') = Some (VString (ustr ''event'')) \<Longrightarrow>
   header_value m (ustr '':event-type'') = Some (VString (ustr ''TranscriptEvent'')) \<Longrightarrow>
   extractTranscriptParts (parseJsonBody P (body m)) = Inl e \<Longrightarrow>
   on_message P data s = (s, [])"
  by (simp add: on_message_def Let_def)

section \<open>Properties of the query string\<close>

text \<open>The encoder on a pair of surrogates, on a lone surrogate and on the characters it escapes.\<close>

lemma encodeRFC3986_examples:
  "encodeRFC3986 [0xD83D, 0xDE00] = Inr (ustr ''%F0%9F%98%80'')"
  "encodeRFC3986 [0xD83D] = Inl URIError"
  "encodeRFC3986 [0xE9, 0x20AC] = Inr (ustr ''%C3%A9%E2%82%AC'')"
  "encodeRFC3986 (ustr ''a b/c*~'') = Inr (ustr ''a%20b%2Fc%2A~'')"
  by (simp_all add: encodeRFC3986_def rfc3986_escape_def prepend_def escape_code_point_def
        utf8_encode_def percent_byte_def hex_digit_def hex_string.simps uri_unescaped_def ustr_def
        is_low_surrogate_def is_high_surrogate_def pair_code_point_def)

lemma unescaped_not_surrogate:
  "uri_unescaped c \<Longrightarrow> \<not> is_high_surrogate c \<and> \<not> is_low_surrogate c"
  by (auto simp: uri_unescaped_def is_high_surrogate_def is_low_surrogate_def word_le_nat_alt)

lemma prepend_Inr: "(\<exists>t. prepend p r = Inr t) = (\<exists>t. r = Inr t)"
  by (cases r) (simp_all add: prepend_def)

lemma encodeURIComponent_total:
  "(\<exists>t. encodeURIComponent s = Inr t) = well_formed s"
proof (induction s rule: encodeURIComponent.induct)
  case 1
  then show ?case by simp
next
  case (2 c cs)
  show ?case
  proof (cases "uri_unescaped c")
    case True
    then show ?thesis
      using 2(1) unescaped_not_surrogate [of c] by (simp add: prepend_Inr)
  next
    case False
    note nu = this
    show ?thesis
    proof (cases "is_low_surrogate c")
      case True
      then show ?thesis using nu by simp
    next
      case False
      note nl = this
      show ?thesis
      proof (cases "is_high_surrogate c")
        case False
        then show ?thesis using nu nl 2(2) by (simp add: prepend_Inr)
      next
        case True
        show ?thesis
        proof (cases cs)
          case Nil
          then show ?thesis using nu nl True by simp
        next
          case (Cons d ds)
          then show ?thesis
            using nu nl True 2(3) [of d ds] by (simp add: prepend_Inr)
        qed
      qed
    qed
  qed
qed

lemma encodeRFC3986_total: "(\<exists>t. encodeRFC3986 s = Inr t) = well_formed s"
  using encodeURIComponent_total [of s]
  by (auto simp: encodeRFC3986_def split: sum.splits)

lemma pair_string_total:
  "(\<exists>p. pair_string k v = Inr p) = (well_formed k \<and> well_formed v)"
  using encodeRFC3986_total [of k] encodeRFC3986_total [of v]
  by (auto simp: pair_string_def split: sum.splits)

lemma encode_pairs_total:
  "(\<exists>ps. encode_pairs kvs = Inr ps) = (\<forall>(k, v) \<in> set kvs. well_formed k \<and> well_formed v)"
proof (induction kvs)
  case Nil
  then show ?case by simp
next
  case (Cons kv kvs)
  obtain k v where kv: "kv = (k, v)" by (cases kv)
  show ?case
    using Cons.IH pair_string_total [of k v]
    by (auto simp: kv split: sum.splits)
qed

lemma encode_pairs_append:
  "encode_pairs (xs @ ys) =
     (case encode_pairs xs of
        Inl e \<Rightarrow> Inl e
      | Inr a \<Rightarrow> (case encode_pairs ys of Inl e \<Rightarrow> Inl e | Inr b \<Rightarrow> Inr (a @ b)))"
  by (induction xs rule: encode_pairs.induct) (auto split: sum.splits)

lemma push_all_encode:
  "push_all k vals pairs =
     (case encode_pairs (map (Pair k) vals) of Inl e \<Rightarrow> Inl e | Inr ps \<Rightarrow> Inr (pairs @ ps))"
  by (induction vals arbitrary: pairs) (auto split: sum.splits)

lemma build_pairs_encode:
  "build_pairs q keys pairs =
     (case encode_pairs (concat (map (\<lambda>k. map (Pair k) (values_of (map_of q k))) keys)) of
        Inl e \<Rightarrow> Inl e
      | Inr ps \<Rightarrow> Inr (pairs @ ps))"
proof (induction keys arbitrary: pairs)
  case Nil
  then show ?case by simp
next
  case (Cons k keys)
  show ?case
  proof (cases "map_of q k")
    case None
    then show ?thesis using Cons.IH by simp
  next
    case (Some v)
    then show ?thesis
      using Cons.IH
      by (cases v) (auto simp: push_all_encode encode_pairs_append split: sum.splits)
  qed
qed

lemma buildQueryString_raw_pairs:
  "buildQueryString (Some q) =
     (case encode_pairs (raw_pairs q) of
        Inl e \<Rightarrow> Inl e
      | Inr pairs \<Rightarrow> Inr (join (ustr ''&'') pairs))"
  by (simp add: buildQueryString_def build_pairs_encode raw_pairs_def split: sum.splits)

lemma sorted_expansion:
  "sorted_wrt (<) keys \<Longrightarrow> (\<And>k. sorted (f k)) \<Longrightarrow>
   sorted_wrt pair_le (concat (map (\<lambda>k. map (Pair k) (f k)) keys))"
proof (induction keys)
  case Nil
  then show ?case by simp
next
  case (Cons k keys)
  have "sorted_wrt pair_le (map (Pair k) (f k))"
    using Cons.prems(2) [of k] by (simp add: sorted_wrt_map pair_le_def)
  moreover have "sorted_wrt pair_le (concat (map (\<lambda>k. map (Pair k) (f k)) keys))"
    using Cons by simp
  moreover have "\<forall>x \<in> set (map (Pair k) (f k)).
      \<forall>y \<in> set (concat (map (\<lambda>k. map (Pair k) (f k)) keys)). pair_le x y"
    using Cons.prems(1) by (auto simp: pair_le_def)
  ultimately show ?case by (simp add: sorted_wrt_append)
qed

lemma sorted_values_of: "sorted (values_of v)"
  by (induction v rule: values_of.induct) simp_all

lemma strict_sorted_keys: "sorted_wrt (<) (sort (remdups xs))"
  by (simp add: strict_sorted_iff)

lemma raw_pairs_sorted: "sorted_wrt pair_le (raw_pairs q)"
  unfolding raw_pairs_def
  by (rule sorted_expansion [OF strict_sorted_keys]) (rule sorted_values_of)

lemma filter_expansion:
  "distinct keys \<Longrightarrow>
   filter (\<lambda>p. fst p = k) (concat (map (\<lambda>k. map (Pair k) (f k)) keys))
     = (if k \<in> set keys then map (Pair k) (f k) else [])"
proof (induction keys)
  case Nil
  then show ?case by simp
next
  case (Cons a keys)
  have "filter (\<lambda>p. fst p = k) (map (Pair a) (f a)) = (if a = k then map (Pair a) (f a) else [])"
    by (simp add: filter_map comp_def)
  then show ?case using Cons by auto
qed

lemma raw_pairs_key:
  "filter (\<lambda>p. fst p = k) (raw_pairs q) = map (Pair k) (values_of (map_of q k))"
proof -
  have "k \<notin> fst ` set q \<Longrightarrow> values_of (map_of q k) = []"
    by (simp add: map_of_eq_None_iff [THEN iffD2])
  then show ?thesis
    unfolding raw_pairs_def by (subst filter_expansion) auto
qed

lemma remdups_replicate_append:
  "a \<notin> set ys \<Longrightarrow> remdups (replicate n a @ ys) = (if n = 0 then [] else [a]) @ remdups ys"
  by (induction n) auto

lemma remdups_expansion_keys:
  "distinct keys \<Longrightarrow>
   remdups (map fst (concat (map (\<lambda>k. map (Pair k) (f k)) keys)))
     = filter (\<lambda>k. f k \<noteq> []) keys"
proof (induction keys)
  case Nil
  then show ?case by simp
next
  case (Cons a keys)
  have m: "map fst (map (Pair a) (f a)) = replicate (length (f a)) a"
    by (simp add: comp_def map_replicate_const)
  have notin: "a \<notin> set (map fst (concat (map (\<lambda>k. map (Pair k) (f k)) keys)))"
    using Cons.prems by auto
  have "remdups (replicate (length (f a)) a @ map fst (concat (map (\<lambda>k. map (Pair k) (f k)) keys)))
      = (if f a = [] then [] else [a]) @ remdups (map fst (concat (map (\<lambda>k. map (Pair k) (f k)) keys)))"
    using remdups_replicate_append [OF notin, of "length (f a)"] by simp
  then show ?case using Cons m by simp
qed

lemma raw_pairs_keys_strict: "sorted_wrt (<) (remdups (map fst (raw_pairs q)))"
proof -
  have d: "distinct (sort (remdups (map fst q)))" by simp
  show ?thesis
    unfolding raw_pairs_def remdups_expansion_keys [OF d]
    by (rule sorted_wrt_filter) (rule strict_sorted_keys)
qed

text \<open>
  C1, as the code has it. The builder sorts before it encodes: the query string is the
  join with "&" of the encoded pairs key=value, taken in ascending order of the keys as
  they are (not of their encodings), the distinct keys strictly ascending; a key bound to
  a string gives one pair, a key bound to an array one pair for each value, in ascending
  order of the values as they are; a key bound to null gives none. The builder returns a
  string exactly when no key or value it visits has a surrogate outside a pair.
\<close>

theorem buildQueryString_sorts_before_encoding:
  "buildQueryString (Some q)
     = (case encode_pairs (raw_pairs q) of
          Inl e \<Rightarrow> Inl e
        | Inr pairs \<Rightarrow> Inr (join (ustr ''&'') pairs))
   \<and> sorted_wrt pair_le (raw_pairs q)
   \<and> sorted_wrt (<) (remdups (map fst (raw_pairs q)))
   \<and> filter (\<lambda>p. fst p = k) (raw_pairs q) = map (Pair k) (values_of (map_of q k))
   \<and> ((\<exists>s. buildQueryString (Some q) = Inr s)
        = (\<forall>(k, v) \<in> set (raw_pairs q). well_formed k \<and> well_formed v))"
proof -
  have "(\<exists>s. buildQueryString (Some q) = Inr s) = (\<exists>ps. encode_pairs (raw_pairs q) = Inr ps)"
    by (auto simp: buildQueryString_raw_pairs split: sum.splits)
  then show ?thesis
    using buildQueryString_raw_pairs [of q] raw_pairs_sorted [of q] raw_pairs_keys_strict [of q]
      raw_pairs_key [of k q] encode_pairs_total [of "raw_pairs q"]
    by simp
qed

theorem buildQueryString_sorts_before_encoding_witness:
  "(let q = [(ustr ''b'', QArray [ustr ''2'', ustr ''1'']),
             (ustr ''a'', QString (ustr ''x! y'')),
             (ustr ''c'', QNull)]
    in buildQueryString (Some q) = Inr (ustr ''a=x%21%20y&b=1&b=2'')
       \<and> raw_pairs q = [(ustr ''a'', ustr ''x! y''), (ustr ''b'', ustr ''1''), (ustr ''b'', ustr ''2'')]
       \<and> filter (\<lambda>p. fst p = ustr ''b'') (raw_pairs q) = [(ustr ''b'', ustr ''1''), (ustr ''b'', ustr ''2'')]
       \<and> (\<forall>(k, v) \<in> set (raw_pairs q). well_formed k \<and> well_formed v) = True)"
  using buildQueryString_sorts_before_encoding
    [of "[(ustr ''b'', QArray [ustr ''2'', ustr ''1'']),
          (ustr ''a'', QString (ustr ''x! y'')),
          (ustr ''c'', QNull)]" "ustr ''b''"]
  by (simp add: raw_pairs_def pair_string_def encodeRFC3986_def rfc3986_escape_def
        prepend_def escape_code_point_def utf8_encode_def percent_byte_def hex_digit_def
        hex_string.simps uri_unescaped_def ustr_def is_low_surrogate_def is_high_surrogate_def
        Let_def)

text \<open>
  C1 as stated fails: the values of an array and the keys come out in the order of their
  raw strings, which is not the order of their encodings ("/" is encoded as "%2F", which
  sorts before "-").
\<close>

theorem buildQueryString_encoded_order_counterexample:
  "buildQueryString (Some [(ustr ''k'', QArray [ustr ''/'', ustr ''-''])])
     = Inr (ustr ''k=-&k=%2F'')
   \<and> \<not> ustr ''-'' \<le> ustr ''%2F''
   \<and> buildQueryString (Some [(ustr ''/'', QString (ustr ''x'')), (ustr ''-'', QString (ustr ''y''))])
     = Inr (ustr ''-=y&%2F=x'')
   \<and> \<not> ustr ''-'' < ustr ''%2F''"
  by (simp add: buildQueryString_def pair_string_def encodeRFC3986_def rfc3986_escape_def
        prepend_def escape_code_point_def utf8_encode_def percent_byte_def hex_digit_def
        uri_unescaped_def ustr_def is_low_surrogate_def is_high_surrogate_def)

section \<open>Properties of the event-stream codec\<close>

declare parse_headers.simps [simp del]

lemma length_be [simp]: "length (be n v) = n"
  by (induction n) simp_all

lemma foldl_be:
  "foldl (\<lambda>a b. a * 256 + unat b) a (be n v) = a * 256 ^ n + v mod 256 ^ n"
proof (induction n arbitrary: a)
  case 0
  then show ?case by simp
next
  case (Suc n)
  define d where "d = v div 256 ^ n mod 256"
  have u: "unat (of_nat (v div 256 ^ n) :: byte) = d"
    by (simp add: unat_of_nat d_def)
  have m: "v mod (256 ^ n * 256) = 256 ^ n * d + v mod 256 ^ n"
    unfolding d_def by (rule mod_mult2_eq)
  have "foldl (\<lambda>a b. a * 256 + unat b) a (be (Suc n) v)
      = foldl (\<lambda>a b. a * 256 + unat b) (a * 256 + d) (be n v)"
    by (simp add: u)
  also have "\<dots> = (a * 256 + d) * 256 ^ n + v mod 256 ^ n"
    by (rule Suc)
  also have "\<dots> = a * 256 ^ Suc n + v mod 256 ^ Suc n"
    using m by (simp add: algebra_simps)
  finally show ?case .
qed

lemma be_nat_be: "v < 256 ^ n \<Longrightarrow> be_nat (be n v) = v"
  by (simp add: be_nat_def foldl_be)

declare be.simps [simp del]

lemma be_nat_word32: "be_nat (be 4 (unat (w :: 32 word))) = unat w"
proof -
  have "unat w < 2 ^ 32" using unsigned_less [of w] by simp
  then show ?thesis by (intro be_nat_be) simp
qed

lemma take_prefix: "length xs = n \<Longrightarrow> take n (xs @ ys) = xs"
  by simp

lemma drop_prefix: "length xs = n \<Longrightarrow> drop n (xs @ ys) = ys"
  by simp

lemma parse_headers_step:
  assumes n: "length name < 256" and l: "length v < 65536"
    and rest: "parse_headers toUtf8 rest = Some hs"
  shows "parse_headers toUtf8 (be 1 (length name) @ name @ [7] @ be 2 (length v) @ v @ rest)
           = Some ((toUtf8 name, toUtf8 v) # hs)"
proof -
  define an where "an = [7] @ be 2 (length v) @ v @ rest"
  define bs where "bs = be 1 (length name) @ name @ an"
  have n1: "be_nat (be 1 (length name)) = length name"
    using n by (intro be_nat_be) simp
  have l1: "be_nat (be 2 (length v)) = length v"
    using l by (intro be_nat_be) simp
  have f1: "take 1 bs = be 1 (length name)"
    unfolding bs_def by (rule take_prefix) simp
  have f2: "drop (1 + length name) bs = an"
    using drop_prefix [of "be 1 (length name) @ name" "1 + length name" an]
    by (simp add: bs_def)
  have f3: "take (length name) (drop 1 bs) = name"
    using drop_prefix [of "be 1 (length name)" 1 "name @ an"] by (simp add: bs_def)
  have f4: "take 1 an = [7]"
    by (simp add: an_def)
  have f5: "take 2 (drop 1 an) = be 2 (length v)"
    using take_prefix [of "be 2 (length v)" 2 "v @ rest"] by (simp add: an_def)
  have f6: "drop (3 + length v) an = rest"
    using drop_prefix [of "[7] @ be 2 (length v) @ v" "3 + length v" rest] by (simp add: an_def)
  have f7: "take (length v) (drop 3 an) = v"
    using drop_prefix [of "[7] @ be 2 (length v)" 3 "v @ rest"] by (simp add: an_def)
  have lb: "length bs = 1 + length name + length an"
    by (simp add: bs_def)
  have la: "length an = 3 + length v + length rest"
    by (simp add: an_def)
  have ne: "bs \<noteq> []" using lb by auto
  have "parse_headers toUtf8 bs = Some ((toUtf8 name, toUtf8 v) # hs)"
    apply (subst parse_headers.simps)
    apply (simp only: Let_def f1 n1 f2 f3 f4 f5 l1 f6 f7 lb la rest)
    apply (simp add: ne)
    done
  then show ?thesis by (simp add: bs_def an_def)
qed

lemma parse_encode_headers:
  assumes "\<forall>h \<in> set hs. toUtf8 (fromUtf8 (fst h)) = fst h \<and> toUtf8 (fromUtf8 (snd h)) = snd h
             \<and> length (fromUtf8 (fst h)) < 256 \<and> length (fromUtf8 (snd h)) < 65536"
  shows "parse_headers toUtf8 (encode_headers fromUtf8 hs) = Some hs"
  using assms
  unfolding encode_headers_def
proof (induction hs)
  case Nil
  then show ?case by (simp add: parse_headers.simps)
next
  case (Cons h hs)
  have "parse_headers toUtf8 (concat (map (encode_header fromUtf8) hs)) = Some hs"
    using Cons by simp
  then have "parse_headers toUtf8
       (be 1 (length (fromUtf8 (fst h))) @ fromUtf8 (fst h) @ [7]
        @ be 2 (length (fromUtf8 (snd h))) @ fromUtf8 (snd h)
        @ concat (map (encode_header fromUtf8) hs))
     = Some ((toUtf8 (fromUtf8 (fst h)), toUtf8 (fromUtf8 (snd h))) # hs)"
    using Cons.prems by (intro parse_headers_step) simp_all
  moreover have "encode_header fromUtf8 h
      = be 1 (length (fromUtf8 (fst h))) @ fromUtf8 (fst h) @ [7]
        @ be 2 (length (fromUtf8 (snd h))) @ fromUtf8 (snd h)"
    by (simp add: encode_header_def Let_def)
  ultimately show ?case
    using Cons.prems by simp
qed

lemma decode_build_frame:
  assumes size: "16 + length block + length payload < 2 ^ 32"
  shows "decode_frame crc toUtf8 (build_frame crc block payload)
           = (case parse_headers toUtf8 block of None \<Rightarrow> None | Some hs \<Rightarrow> Some (hs, payload))"
proof -
  define total where "total = 16 + length block + length payload"
  define prelude where "prelude = be 4 total @ be 4 (length block)"
  define msg where "msg = prelude @ be 4 (unat (crc prelude)) @ block @ payload"
  define fr where "fr = msg @ be 4 (unat (crc msg))"
  have fr: "build_frame crc block payload = fr"
    by (simp add: build_frame_def Let_def total_def prelude_def msg_def fr_def)
  have lp: "length prelude = 8" by (simp add: prelude_def)
  have lm: "length msg = 12 + length block + length payload" by (simp add: msg_def lp)
  have len: "length fr = total" by (simp add: fr_def lm total_def)
  have ge: "\<not> total < 16" "\<not> total < 16 + length block" by (simp_all add: total_def)
  have t: "be_nat (be 4 total) = total"
    using size by (intro be_nat_be) (simp add: total_def)
  have b: "be_nat (be 4 (length block)) = length block"
    using size by (intro be_nat_be) simp
  have 1: "take 4 fr = be 4 total"
    by (simp add: fr_def msg_def prelude_def)
  have 2: "take 4 (drop 4 fr) = be 4 (length block)"
    by (simp add: fr_def msg_def prelude_def)
  have 3: "take 8 fr = prelude"
    by (simp add: fr_def msg_def lp)
  have 4: "take 4 (drop 8 fr) = be 4 (unat (crc prelude))"
    by (simp add: fr_def msg_def lp)
  have 5: "drop (total - 4) fr = be 4 (unat (crc msg))"
    by (simp add: fr_def lm total_def)
  have 6: "take (total - 4) fr = msg"
    by (simp add: fr_def lm total_def)
  have 7: "take (length block) (drop 12 fr) = block"
    by (simp add: fr_def msg_def lp)
  have 8: "take (total - (16 + length block)) (drop (12 + length block) fr) = payload"
    by (simp add: fr_def msg_def lp total_def)
  have 9: "take (total - 16 - length block) (drop (12 + length block) fr) = payload"
    using 8 by simp
  show ?thesis
    unfolding fr decode_frame_def len
    by (simp add: 1 2 3 4 5 6 7 8 9 t b ge be_nat_word32 Let_def split: option.splits)
qed

text \<open>
  C3, on the codec modelled from the specification. For string-typed headers whose names
  take fewer than 256 bytes and whose values fewer than 65536 bytes, both preserved by
  the UTF-8 conversions, and a payload with which the frame stays below \<open>2 ^ 32\<close> bytes,
  decoding the encoded frame succeeds and returns the headers and the payload that were
  encoded.
\<close>

theorem codec_round_trip:
  assumes "\<forall>h \<in> set hs. toUtf8 (fromUtf8 (fst h)) = fst h \<and> toUtf8 (fromUtf8 (snd h)) = snd h
             \<and> length (fromUtf8 (fst h)) < 256 \<and> length (fromUtf8 (snd h)) < 65536"
    and "16 + length (encode_headers fromUtf8 hs) + length payload < 2 ^ 32"
  shows "decode_frame crc toUtf8 (encode_frame crc fromUtf8 hs payload) = Some (hs, payload)"
  using decode_build_frame [OF assms(2), of crc toUtf8] parse_encode_headers [OF assms(1)]
  by (simp add: encode_frame_def)

theorem codec_round_trip_witness:
  "decode_frame (\<lambda>bs. 0) (map ucast)
     (encode_frame (\<lambda>bs. 0) (map ucast)
        [(ustr '':message-type'', ustr ''event''),
         (ustr '':event-type'', ustr ''AudioEvent''),
         (ustr '':content-type'', ustr ''application/octet-stream'')] [0, 0, 0])
   = Some ([(ustr '':message-type'', ustr ''event''),
            (ustr '':event-type'', ustr ''AudioEvent''),
            (ustr '':content-type'', ustr ''application/octet-stream'')], [0, 0, 0])"
  using codec_round_trip
    [of "[(ustr '':message-type'', ustr ''event''),
          (ustr '':event-type'', ustr ''AudioEvent''),
          (ustr '':content-type'', ustr ''application/octet-stream'')]"
        "map ucast" "map ucast" "[0, 0, 0]" "\<lambda>bs. 0"]
  by (simp add: ustr_def encode_headers_def encode_header_def)

lemma parse_long_name:
  "parse_headers toUtf8 (be 1 256 @ replicate 256 0x61 @ rest) = None"
proof -
  define bs :: "byte list" where "bs = be 1 256 @ replicate 256 0x61 @ rest"
  have b0: "be 1 256 = [0]"
    using be.simps(2) [of 0 256] by (simp add: be.simps(1))
  have bs: "bs = 0 # 0x61 # replicate 255 0x61 @ rest"
    unfolding bs_def b0 by (simp add: replicate_Suc [symmetric] del: replicate_Suc)
  have f1: "take 1 bs = [0]" by (simp add: bs)
  have n0: "be_nat [0] = 0" by (simp add: be_nat_def)
  have f2: "drop (1 + 0) bs = 0x61 # replicate 255 0x61 @ rest" by (simp add: bs)
  have f4: "take 1 (0x61 # replicate 255 0x61 @ rest) \<noteq> [7 :: byte]" by simp
  have ne: "bs \<noteq> []" by (simp add: bs)
  have l: "\<not> length bs < 1 + 0 + 3" by (simp add: bs)
  have "parse_headers toUtf8 bs = None"
    apply (subst parse_headers.simps)
    apply (simp only: Let_def f1 n0 f2)
    apply (simp only: ne l f4 if_False if_True not_False_eq_True)
    done
  then show ?thesis by (simp add: bs_def)
qed

text \<open>
  C3 as stated fails on this codec: the name length is one byte, so that a header name of
  256 bytes is written with length 0 and the frame does not decode.
\<close>

theorem codec_long_name_counterexample:
  "decode_frame (\<lambda>bs. 0) (map ucast)
     (encode_frame (\<lambda>bs. 0) (map ucast) [(replicate 256 0x61, ustr ''v'')] [])
   = None"
proof -
  have e: "encode_headers (map ucast) [(replicate 256 0x61, ustr ''v'')]
      = be 1 256 @ replicate 256 0x61 @ ([7] @ be 2 1 @ [0x76])"
    by (simp add: encode_headers_def encode_header_def ustr_def)
  have "16 + length (encode_headers (map ucast) [(replicate 256 (0x61 :: 16 word), ustr ''v'')])
          + length ([] :: byte list) < 2 ^ 32"
    by (simp add: e)
  from decode_build_frame [OF this, of "\<lambda>bs. 0" "map ucast"]
    parse_long_name [of "map ucast" "[7] @ be 2 1 @ [0x76]"]
  show ?thesis
    by (simp add: encode_frame_def e)
qed

end
